theory Spec2Isabelle
  imports Main "HOL-Library.AList"
begin

section \<open>Strings\<close>

text \<open>
  A Python \<open>str\<close> is modelled as a \<open>string\<close>; each \<open>char\<close> stands for one code
  point of the range 0..255, so \<open>length\<close> is Python's \<open>len\<close> on such texts.
\<close>

definition isspace :: "char \<Rightarrow> bool" where
  \<comment> \<open>\<open>str.isspace\<close> on one code point below 256; the class \<open>\\s\<close> of \<open>re\<close> is the same set\<close>
  "isspace c = (of_char c \<in> {9, 10, 11, 12, 13, 28, 29, 30, 31, 32, 133, 160 :: nat})"

definition strip :: "string \<Rightarrow> string" where
  \<comment> \<open>\<open>text.strip()\<close>\<close>
  "strip s = rev (dropWhile isspace (rev (dropWhile isspace s)))"

definition startswith :: "string \<Rightarrow> string \<Rightarrow> bool" where
  \<comment> \<open>\<open>s.startswith(p)\<close>\<close>
  "startswith s p = (take (length p) s = p)"

definition lower_char :: "char \<Rightarrow> char" where
  \<comment> \<open>\<open>str.lower\<close> on one code point below 256: A-Z, and the capitals of Latin-1 but the
      multiplication sign\<close>
  "lower_char c =
     (let n = (of_char c :: nat)
      in if (65 \<le> n \<and> n \<le> 90) \<or> (192 \<le> n \<and> n \<le> 222 \<and> n \<noteq> 215)
         then char_of (n + 32) else c)"

definition lower :: "string \<Rightarrow> string" where
  "lower s = map lower_char s"

fun join :: "string \<Rightarrow> string list \<Rightarrow> string" where
  \<comment> \<open>\<open>sep.join(xs)\<close>\<close>
  "join sep [] = []"
| "join sep [x] = x"
| "join sep (x # y # ys) = x @ sep @ join sep (y # ys)"

section \<open>Errors\<close>

datatype pyerror =
    SyntaxError | ValueError | TypeError | KeyError | IndexError
  | MemoryError | RecursionError | ApiError

section \<open>OverflowPolicy\<close>

definition LONGRESPONSE :: string where
  "LONGRESPONSE = ''Response was too long for Slack. See attached llm_response.txt''"

type_synonym file_ref = string

text \<open>
  The chat client's \<open>files_upload_v2\<close> is a collaborator: a function of the channel, the
  content, the file name and the thread, which gives the uploaded file or raises.
\<close>

type_synonym uploader = "string \<Rightarrow> string \<Rightarrow> string \<Rightarrow> string \<Rightarrow> pyerror + file_ref"

definition upload_snippet ::
  "uploader \<Rightarrow> string \<Rightarrow> string \<Rightarrow> string \<Rightarrow> string \<Rightarrow> file_ref option" where
  \<comment> \<open>the \<open>try\<close> catches every exception of the call and returns \<open>None\<close>\<close>
  "upload_snippet files_upload_v2 channel content filename thread_ts =
     (case files_upload_v2 channel content filename thread_ts of
        Inl e \<Rightarrow> None
      | Inr f \<Rightarrow> Some f)"

definition handle_large_response ::
  "string \<Rightarrow> uploader \<Rightarrow> string \<Rightarrow> string \<Rightarrow> string \<times> file_ref option" where
  "handle_large_response text files_upload_v2 channel thread_ts =
     (if length text \<le> 3000 then (text, None)
      else (case upload_snippet files_upload_v2 channel text ''llm_response.txt'' thread_ts of
              Some f \<Rightarrow> (LONGRESPONSE, Some f)
            | None \<Rightarrow> (take 2950 text @ ''\<newline>... [Response truncated]'', None)))"

definition endswith :: "string \<Rightarrow> string \<Rightarrow> bool" where
  "endswith s p = (drop (length s - length p) s = p \<and> length p \<le> length s)"

section \<open>Python values\<close>

text \<open>
  The values \<open>ast.literal_eval\<close> can return. A float is \<open>Float m e\<close> for the double
  \<open>m * 2 ^ e\<close>, or one of the three special doubles. A set is carried as the list of its
  members in iteration order, a dictionary as the list of its items in insertion order;
  equality of keys is equality of the model's values.
\<close>

datatype pyfloat = Float int int | PosInf | NegInf | NaN

datatype pyval =
    VNone
  | VBool bool
  | VInt int
  | VFloat pyfloat
  | VComplex pyfloat pyfloat
  | VStr string
  | VBytes "nat list"
  | VTuple "pyval list"
  | VList "pyval list"
  | VSet "pyval list"
  | VDict "(pyval \<times> pyval) list"
  | VEllipsis

type_synonym pydict = "(pyval \<times> pyval) list"

fun float_nonzero :: "pyfloat \<Rightarrow> bool" where
  "float_nonzero (Float m e) = (m \<noteq> 0)"
| "float_nonzero f = True"

fun truthy :: "pyval \<Rightarrow> bool" where
  \<comment> \<open>\<open>bool(v)\<close>\<close>
  "truthy VNone = False"
| "truthy (VBool b) = b"
| "truthy (VInt i) = (i \<noteq> 0)"
| "truthy (VFloat f) = float_nonzero f"
| "truthy (VComplex re im) = (float_nonzero re \<or> float_nonzero im)"
| "truthy (VStr s) = (s \<noteq> [])"
| "truthy (VBytes bs) = (bs \<noteq> [])"
| "truthy (VTuple xs) = (xs \<noteq> [])"
| "truthy (VList xs) = (xs \<noteq> [])"
| "truthy (VSet xs) = (xs \<noteq> [])"
| "truthy (VDict kvs) = (kvs \<noteq> [])"
| "truthy VEllipsis = True"

fun eq_False :: "pyval \<Rightarrow> bool" where
  \<comment> \<open>\<open>v == False\<close>: \<open>False\<close> and the numbers equal to zero\<close>
  "eq_False (VBool b) = (\<not> b)"
| "eq_False (VInt i) = (i = 0)"
| "eq_False (VFloat f) = (\<not> float_nonzero f)"
| "eq_False (VComplex re im) = (\<not> float_nonzero re \<and> \<not> float_nonzero im)"
| "eq_False v = False"

fun hashable :: "pyval \<Rightarrow> bool" where
  "hashable (VList xs) = False"
| "hashable (VSet xs) = False"
| "hashable (VDict kvs) = False"
| "hashable (VTuple xs) = list_all hashable xs"
| "hashable v = True"

fun py_iter :: "pyval \<Rightarrow> pyval list option" where
  \<comment> \<open>the members \<open>iter(v)\<close> yields; \<open>None\<close> where \<open>v\<close> is not iterable (a \<open>TypeError\<close>)\<close>
  "py_iter (VStr s) = Some (map (\<lambda>c. VStr [c]) s)"
| "py_iter (VBytes bs) = Some (map (\<lambda>b. VInt (int b)) bs)"
| "py_iter (VTuple xs) = Some xs"
| "py_iter (VList xs) = Some xs"
| "py_iter (VSet xs) = Some xs"
| "py_iter (VDict kvs) = Some (map fst kvs)"
| "py_iter v = None"

definition dict_get :: "pydict \<Rightarrow> string \<Rightarrow> pyval option" where
  \<comment> \<open>\<open>config.get(key)\<close> for a string key; \<open>None\<close> is Python's \<open>None\<close> of a missing key\<close>
  "dict_get d k = map_of d (VStr k)"

definition get_truthy :: "pydict \<Rightarrow> string \<Rightarrow> bool" where
  \<comment> \<open>the truth value of \<open>config.get(key)\<close>\<close>
  "get_truthy d k = (case dict_get d k of None \<Rightarrow> False | Some v \<Rightarrow> truthy v)"

definition setitem :: "pyval \<times> pyval \<Rightarrow> pydict \<Rightarrow> pydict" where
  \<comment> \<open>\<open>d[k] = v\<close>: the value replaced in place, or the item appended\<close>
  "setitem kv d = AList.update (fst kv) (snd kv) d"

fun update_pairs :: "pydict \<Rightarrow> pyval list \<Rightarrow> pyerror option \<times> pydict" where
  \<comment> \<open>\<open>d.update(seq)\<close> for a sequence of pairs: every member must be iterable
      (\<open>TypeError\<close>), of length 2 (\<open>ValueError\<close>), with a hashable first component
      (\<open>TypeError\<close>). The dictionary is mutated member by member, so the items stored
      before an exception stay.\<close>
  "update_pairs d [] = (None, d)"
| "update_pairs d (e # es) =
     (case py_iter e of
        None \<Rightarrow> (Some TypeError, d)
      | Some [k, v] \<Rightarrow>
          if hashable k then update_pairs (setitem (k, v) d) es else (Some TypeError, d)
      | Some _ \<Rightarrow> (Some ValueError, d))"

definition dict_update :: "pydict \<Rightarrow> pyval \<Rightarrow> pyerror option \<times> pydict" where
  \<comment> \<open>\<open>d.update(other)\<close>: a dictionary is merged item by item, anything else is read as
      a sequence of pairs\<close>
  "dict_update d other =
     (case other of
        VDict kvs \<Rightarrow> (None, fold setitem kvs d)
      | _ \<Rightarrow> (case py_iter other of
                None \<Rightarrow> (Some TypeError, d)
              | Some es \<Rightarrow> update_pairs d es))"

section \<open>ConfigBlockParser\<close>

definition bot_mention :: "string \<Rightarrow> string" where
  "bot_mention bot_user_id = ''<@'' @ bot_user_id @ ''>''"

definition public_flag :: string where
  "public_flag = ''@public''"

lemma length_strip_le: "length (strip s) \<le> length s"
  unfolding strip_def
  by (metis length_dropWhile_le length_rev le_trans)

lemma startswith_length: "startswith s p \<Longrightarrow> length p \<le> length s"
proof -
  assume "startswith s p"
  then have "length p = length (take (length p) s)" by (simp add: startswith_def)
  then show ?thesis by simp
qed

lemma bot_mention_nonempty: "bot_mention b \<noteq> []"
  by (simp add: bot_mention_def)

lemma public_flag_nonempty: "public_flag \<noteq> []"
  by (simp add: public_flag_def)

lemma strip_drop_less:
  assumes "startswith (strip t) p" and "p \<noteq> []"
  shows "length (strip (drop (length p) (strip t))) < length t"
proof -
  have "length (strip (drop (length p) (strip t))) \<le> length (strip t) - length p"
    using length_strip_le [of "drop (length p) (strip t)"] by simp
  moreover have "length p \<le> length (strip t)"
    using assms(1) by (rule startswith_length)
  moreover have "0 < length p" using assms(2) by simp
  moreover have "length (strip t) \<le> length t" by (rule length_strip_le)
  ultimately show ?thesis by linarith
qed

function strip_prefixes :: "string \<Rightarrow> pydict \<Rightarrow> string \<Rightarrow> string \<times> pydict" where
  \<comment> \<open>the \<open>while True\<close> loop that removes the leading tokens\<close>
  "strip_prefixes bot_user_id config text =
     (let text = strip text in
      if startswith text (bot_mention bot_user_id) then
        strip_prefixes bot_user_id (setitem (VStr ''is_bot_mention'', VBool True) config)
          (strip (drop (length (bot_mention bot_user_id)) text))
      else if startswith text public_flag then
        strip_prefixes bot_user_id (setitem (VStr ''is_public'', VBool True) config)
          (strip (drop (length public_flag) text))
      else (text, config))"
  by pat_completeness auto
termination
  by (relation "measure (\<lambda>(b, c, t). length t)")
    (simp_all add: strip_drop_less bot_mention_nonempty public_flag_nonempty)

declare strip_prefixes.simps [simp del]

fun lazy_until_close :: "string \<Rightarrow> (string \<times> string) option" where
  \<comment> \<open>\<open>(.+?)}}\<close> with DOTALL: the shortest non-empty group followed by two closing
      braces, and the text after them\<close>
  "lazy_until_close [] = None"
| "lazy_until_close (c # rest) =
     (if startswith rest ''}}'' then Some ([c], drop 2 rest)
      else map_option (\<lambda>(g, r). (c # g, r)) (lazy_until_close rest))"

definition match_config :: "string \<Rightarrow> (string \<times> string) option" where
  \<comment> \<open>\<open>re.match(r'^\\s*{{(.+?)}}\\s*(.*)', text, re.DOTALL)\<close>: the two groups of the match.
      What follows the closing braces always matches, so the first close found is the
      one taken.\<close>
  "match_config text =
     (let t = dropWhile isspace text in
      if startswith t ''{{'' then
        (case lazy_until_close (drop 2 t) of
           None \<Rightarrow> None
         | Some (g, r) \<Rightarrow> Some (g, dropWhile isspace r))
      else None)"

text \<open>
  \<open>ast.literal_eval\<close> is Python's own: the parser takes it as a parameter, a function
  from the source text to the value or the exception raised.
\<close>

type_synonym evaluator = "string \<Rightarrow> pyerror + pyval"

definition caught :: "pyerror \<Rightarrow> bool" where
  \<comment> \<open>\<open>except (SyntaxError, ValueError)\<close>\<close>
  "caught e = (e = SyntaxError \<or> e = ValueError)"

fun isinstance_dict :: "pyval \<Rightarrow> bool" where
  \<comment> \<open>\<open>isinstance(v, dict)\<close>\<close>
  "isinstance_dict (VDict kvs) = True"
| "isinstance_dict v = False"

definition parse_config_block ::
  "string \<Rightarrow> evaluator \<Rightarrow> string \<Rightarrow> pyerror + (string \<times> pydict)" where
  \<comment> \<open>The test \<open>isinstance(config, dict)\<close> of the source is on \<open>config\<close>, the directive
      map, not on \<open>config2\<close>. An exception of \<open>update\<close> leaves in \<open>config\<close> the items stored
      before it.\<close>
  "parse_config_block bot_user_id literal_eval text =
     (case strip_prefixes bot_user_id [] text of (text, config) \<Rightarrow>
        (case match_config text of
           None \<Rightarrow> Inr (strip text, config)
         | Some (config_str, remaining_text) \<Rightarrow>
             (case literal_eval (''{'' @ config_str @ ''}'') of
                Inl e \<Rightarrow> if caught e then Inr (strip text, config) else Inl e
              | Inr config2 \<Rightarrow>
                  (case dict_update config
                          (if \<not> isinstance_dict (VDict config) then VDict [] else config2) of
                     (None, config') \<Rightarrow> Inr (strip remaining_text, config')
                   | (Some e, config') \<Rightarrow>
                       if caught e then Inr (strip text, config') else Inl e))))"

definition eval_table :: "(string \<times> (pyerror + pyval)) list \<Rightarrow> evaluator" where
  \<comment> \<open>an evaluator given by the table of what \<open>ast.literal_eval\<close> returns on the listed
      sources; it is used at listed sources only\<close>
  "eval_table tab src = (case map_of tab src of Some r \<Rightarrow> r | None \<Rightarrow> Inl SyntaxError)"

text \<open>
  The shape of a message that opens with tokens: each token is followed by a run of
  whitespace, and the tokens are followed by \<open>core\<close>.
\<close>

datatype prefix_token = Mention | Public

fun token_text :: "string \<Rightarrow> prefix_token \<Rightarrow> string" where
  "token_text uid Mention = bot_mention uid"
| "token_text uid Public = public_flag"

fun token_flag :: "prefix_token \<Rightarrow> pyval \<times> pyval" where
  "token_flag Mention = (VStr ''is_bot_mention'', VBool True)"
| "token_flag Public = (VStr ''is_public'', VBool True)"

fun with_prefixes :: "string \<Rightarrow> (prefix_token \<times> string) list \<Rightarrow> string \<Rightarrow> string" where
  "with_prefixes uid [] core = core"
| "with_prefixes uid ((t, ws) # toks) core =
     token_text uid t @ ws @ with_prefixes uid toks core"

definition structural_flags :: "prefix_token list \<Rightarrow> pydict \<Rightarrow> pydict" where
  "structural_flags toks config = fold (\<lambda>t. setitem (token_flag t)) toks config"

definition tight :: "string \<Rightarrow> bool" where
  \<comment> \<open>a text that \<open>strip\<close> leaves as it is: not empty, no whitespace at either end\<close>
  "tight m = (m \<noteq> [] \<and> \<not> isspace (hd m) \<and> \<not> isspace (last m))"

section \<open>Display blocks and their reconstruction\<close>

text \<open>
  A display block of a message: a section with its text, a divider, or a block of another
  type (named). The sections are those the bot posts, which always carry a text.
\<close>

datatype block = Section string | Divider | OtherBlock string

fun slackmsg_loop :: "block list \<Rightarrow> string list \<Rightarrow> string list" where
  \<comment> \<open>the loop of \<open>reconstruct_from_slackmsg\<close>\<close>
  "slackmsg_loop [] messages = messages"
| "slackmsg_loop (Section text # blocks) messages =
     (if startswith text LONGRESPONSE then slackmsg_loop blocks messages
      else slackmsg_loop blocks (messages @ [text]))"
| "slackmsg_loop (Divider # blocks) messages = slackmsg_loop blocks messages"
| "slackmsg_loop (OtherBlock ty # blocks) messages = slackmsg_loop blocks messages"

definition reconstruct_from_slackmsg :: "block list \<Rightarrow> string" where
  "reconstruct_from_slackmsg blocks = join ''\<newline>'' (slackmsg_loop blocks [])"

definition convert_to_blocks :: "string \<Rightarrow> block list" where
  \<comment> \<open>the module's \<open>convert_to_blocks\<close>, the one the bot calls\<close>
  "convert_to_blocks text = (if text \<noteq> [] then [Section text] else [])"

fun section_texts :: "block list \<Rightarrow> string list" where
  \<comment> \<open>the texts of the section blocks, in order\<close>
  "section_texts [] = []"
| "section_texts (Section text # blocks) = text # section_texts blocks"
| "section_texts (b # blocks) = section_texts blocks"

section \<open>Messages, events and conversation turns\<close>

text \<open>
  A message of the platform. The fields read with \<open>get\<close> are optional; every message has
  a timestamp; a missing list of files or blocks is the empty list, which the source
  cannot tell apart. A file is known by its identifier.
\<close>

record message =
  user :: "string option"
  msg_text :: "string option"
  ts :: string
  thread_ts :: "string option"
  subtype :: "string option"
  files :: "file_ref list"
  blocks :: "block list"

text \<open>
  An event is a message with its channel and, for an edit or a deletion, the message
  after and the message before.
\<close>

record event = message +
  channel :: string
  message :: "message option"
  previous_message :: "message option"

datatype payload =
    TextPart string
  | ImagePart string string
  | DocumentPart string string

record part =
  payload :: payload
  cache_control :: bool

datatype role = User | Assistant

record turn =
  role :: role
  content :: "part list"

definition text_part :: "string \<Rightarrow> part" where
  \<comment> \<open>\<open>{"type": "text", "text": t}\<close>\<close>
  "text_part t = \<lparr>payload = TextPart t, cache_control = False\<rparr>"

definition get_text :: "message \<Rightarrow> string" where
  \<comment> \<open>\<open>msg.get("text", "")\<close>\<close>
  "get_text msg = (case msg_text msg of None \<Rightarrow> [] | Some t \<Rightarrow> t)"

section \<open>Floats of timestamps\<close>

fun float_ge :: "pyfloat \<Rightarrow> pyfloat \<Rightarrow> bool" where
  \<comment> \<open>\<open>x >= y\<close> on doubles\<close>
  "float_ge NaN y = False"
| "float_ge x NaN = False"
| "float_ge PosInf y = True"
| "float_ge x NegInf = True"
| "float_ge NegInf y = False"
| "float_ge x PosInf = False"
| "float_ge (Float m1 e1) (Float m2 e2) =
     (let e = min e1 e2 in m2 * 2 ^ nat (e2 - e) \<le> m1 * 2 ^ nat (e1 - e))"

section \<open>Collaborators\<close>

text \<open>
  What the handler calls and does not own: the chat client, the model, the processing
  of one attachment (its download and encoding, \<open>None\<close> when it raises or gives nothing),
  and Python's \<open>ast.literal_eval\<close> and \<open>float\<close>. A request to the model carries the system
  prompt (\<open>None\<close> is the bot's own one), the turns and the temperature (\<open>None\<close> is the
  default 0.7). The model's answer is the list of the texts of the parts of its response.
\<close>

record request =
  system :: "pyval option"
  messages :: "turn list"
  temperature :: "pyval option"

record collaborators =
  conversations_replies :: "string \<Rightarrow> string \<Rightarrow> pyerror + message list"
  files_upload_v2 :: uploader
  download_and_encode_file :: "file_ref \<Rightarrow> payload option"
  messages_create :: "request \<Rightarrow> pyerror + string list"
  literal_eval :: evaluator
  float :: "string \<Rightarrow> pyerror + pyfloat"

text \<open>What the handler does to the outside, in order.\<close>

datatype effect =
    ChatDelete string string
  | ReactionsAdd string string
  | ReactionsRemove string string
  | MessagesCreate request
  | FilesUpload string string string string
  | Say string "block list" string
  | SayError pyerror string

section \<open>ThreadFormatter\<close>

definition process_attachments :: "(file_ref \<Rightarrow> payload option) \<Rightarrow> file_ref list \<Rightarrow> part list" where
  \<comment> \<open>\<open>AttachmentHandler.process_attachments\<close>: a file whose processing fails is left out\<close>
  "process_attachments dl fs =
     (if fs = [] then []
      else map (\<lambda>p. \<lparr>payload = p, cache_control = False\<rparr>) (List.map_filter dl fs))"

definition is_aside :: "string \<Rightarrow> bool" where
  "is_aside text = startswith (lower (strip text)) ''@aside''"

definition replaced_text :: "string \<Rightarrow> message \<Rightarrow> string option" where
  \<comment> \<open>the text of the message after the step on the blocks of a bot message\<close>
  "replaced_text bot_user_id msg =
     (if user msg = Some bot_user_id \<and> blocks msg \<noteq> [] then
        (let blocktxt = reconstruct_from_slackmsg (blocks msg)
         in if blocktxt \<noteq> [] then Some blocktxt else msg_text msg)
      else msg_text msg)"

definition formatted_content ::
  "string \<Rightarrow> (file_ref \<Rightarrow> payload option) \<Rightarrow> message \<Rightarrow> part list" where
  "formatted_content bot_user_id dl msg =
     (case replaced_text bot_user_id msg of
        None \<Rightarrow> []
      | Some t \<Rightarrow> if t \<noteq> [] \<and> \<not> startswith t LONGRESPONSE then [text_part t] else [])
     @ (if files msg \<noteq> [] then process_attachments dl (files msg) else [])"

definition format_message ::
  "string \<Rightarrow> (file_ref \<Rightarrow> payload option) \<Rightarrow> pydict \<Rightarrow> string option \<Rightarrow> message \<Rightarrow> turn option" where
  \<comment> \<open>the body of the loop of \<open>format_thread\<close> on one message: \<open>None\<close> is \<open>continue\<close>\<close>
  "format_message bot_user_id dl config initiator_id msg =
     (if user msg \<noteq> Some bot_user_id \<and> user msg \<noteq> initiator_id \<and> \<not> get_truthy config ''is_public''
      then None
      else if is_aside (get_text msg) then None
      else if formatted_content bot_user_id dl msg = [] then None
      else Some \<lparr>role = (if user msg = Some bot_user_id then Assistant else User),
                 content = formatted_content bot_user_id dl msg\<rparr>)"

fun format_messages ::
  "string \<Rightarrow> (file_ref \<Rightarrow> payload option) \<Rightarrow> pydict \<Rightarrow> string option \<Rightarrow> message list \<Rightarrow> turn list" where
  "format_messages bot_user_id dl config initiator_id [] = []"
| "format_messages bot_user_id dl config initiator_id (msg # msgs) =
     (case format_message bot_user_id dl config initiator_id msg of
        None \<Rightarrow> format_messages bot_user_id dl config initiator_id msgs
      | Some t \<Rightarrow> t # format_messages bot_user_id dl config initiator_id msgs)"

definition format_thread ::
  "string \<Rightarrow> (file_ref \<Rightarrow> payload option) \<Rightarrow> message list \<Rightarrow> pydict \<Rightarrow> pyerror + turn list" where
  \<comment> \<open>\<open>thread["messages"][0]\<close> raises on a thread with no message\<close>
  "format_thread bot_user_id dl thread config =
     (case thread of
        [] \<Rightarrow> Inl IndexError
      | first_msg # rest \<Rightarrow>
          Inr (format_messages bot_user_id dl config (user first_msg) thread))"

section \<open>CacheBoundaryPolicy\<close>

definition mark_last :: "part list \<Rightarrow> part list" where
  \<comment> \<open>\<open>content[-1]["cache_control"] = {"type": "ephemeral"}\<close>, on a list that is not empty\<close>
  "mark_last ps = butlast ps @ [(last ps)\<lparr>cache_control := True\<rparr>]"

fun mark_reversed :: "turn list \<Rightarrow> turn list" where
  \<comment> \<open>the loop over \<open>reversed(messages)\<close>, on the reversed list: the first user turn with
      more than one part is marked and the loop stops\<close>
  "mark_reversed [] = []"
| "mark_reversed (t # rest) =
     (if role t = User \<and> 1 < length (content t)
      then t\<lparr>content := mark_last (content t)\<rparr> # rest
      else t # mark_reversed rest)"

definition apply_cache_headers :: "turn list \<Rightarrow> turn list" where
  \<comment> \<open>the turns \<open>apply_cache_headers\<close> returns; the system prompt it returns with them is
      the bot's own, \<open>None\<close> in a request\<close>
  "apply_cache_headers msgs = rev (mark_reversed (rev msgs))"

section \<open>ConversationOrchestrator\<close>

fun after_deleted_idx ::
  "(string \<Rightarrow> pyerror + pyfloat) \<Rightarrow> message list \<Rightarrow> pyfloat \<Rightarrow> nat \<Rightarrow> pyerror + nat option" where
  \<comment> \<open>\<open>next((i for i, msg in enumerate(messages) if float(msg["ts"]) >= deleted_ts), -1)\<close>,
      from position \<open>i\<close> on; \<open>None\<close> is the default -1\<close>
  "after_deleted_idx fl [] deleted_ts i = Inr None"
| "after_deleted_idx fl (msg # msgs) deleted_ts i =
     (case fl (ts msg) of
        Inl e \<Rightarrow> Inl e
      | Inr f \<Rightarrow> if float_ge f deleted_ts then Inr (Some i)
                else after_deleted_idx fl msgs deleted_ts (Suc i))"

definition handle_message_deleted :: "string \<Rightarrow> collaborators \<Rightarrow> event \<Rightarrow> effect list" where
  \<comment> \<open>every exception is caught and logged: the calls made before it stay, none follows.
      A \<open>chat_delete\<close> that raises is logged and the loop goes on.\<close>
  "handle_message_deleted bot_user_id c ev =
     (case previous_message ev of
        None \<Rightarrow> []
      | Some prev \<Rightarrow>
          (case thread_ts prev of
             None \<Rightarrow> []
           | Some tts \<Rightarrow>
               if tts = [] then []
               else if subtype prev = Some ''tombstone'' then []
               else
                 (case conversations_replies c (channel ev) tts of
                    Inl e \<Rightarrow> []
                  | Inr msgs \<Rightarrow>
                      (case float c (ts prev) of
                         Inl e \<Rightarrow> []
                       | Inr deleted_ts \<Rightarrow>
                           (case after_deleted_idx (float c) msgs deleted_ts 0 of
                              Inl e \<Rightarrow> []
                            | Inr None \<Rightarrow> []
                            | Inr (Some idx) \<Rightarrow>
                                map (\<lambda>m. ChatDelete (channel ev) (ts m))
                                  (filter (\<lambda>m. user m = Some bot_user_id) (drop idx msgs)))))))"

definition call_claude ::
  "collaborators \<Rightarrow> event \<Rightarrow> message \<Rightarrow> string \<Rightarrow> pydict \<Rightarrow> turn list
     \<Rightarrow> effect list \<times> pyerror option" where
  \<comment> \<open>the end of \<open>handle_message\<close>, from the comment \<open>Call Claude API\<close> on: the effects
      made, and the exception that stopped it. The typing indicator is a reaction, whose
      failures are logged.\<close>
  "call_claude c ev msg thr config formatted_messages =
     (let msgs = apply_cache_headers formatted_messages;
          req = \<lparr>system = dict_get config ''system'', messages = msgs,
                 temperature = dict_get config ''temperature''\<rparr>
      in if (case dict_get config ''claude'' of Some v \<Rightarrow> eq_False v | None \<Rightarrow> False)
         then ([], None)
         else
           (case messages_create c req of
              Inl e \<Rightarrow> ([ReactionsAdd (channel ev) (ts msg), MessagesCreate req], Some e)
            | Inr response_content \<Rightarrow>
                (case response_content of
                   [] \<Rightarrow>
                     ([ReactionsAdd (channel ev) (ts msg), MessagesCreate req,
                       ReactionsRemove (channel ev) (ts msg)], Some IndexError)
                 | response_text # others \<Rightarrow>
                     (let result = handle_large_response response_text (files_upload_v2 c)
                                     (channel ev) thr;
                          cleaned_text = fst result;
                          done = [ReactionsAdd (channel ev) (ts msg), MessagesCreate req,
                                  ReactionsRemove (channel ev) (ts msg)]
                                 @ (if 3000 < length response_text
                                    then [FilesUpload (channel ev) response_text
                                            ''llm_response.txt'' thr]
                                    else [])
                      in case snd result of
                           Some f \<Rightarrow> (done, None)
                         | None \<Rightarrow>
                             (done @ [Say (take 3000 cleaned_text)
                                        (convert_to_blocks cleaned_text) thr],
                              None)))))"

definition new_thread ::
  "string \<Rightarrow> collaborators \<Rightarrow> event \<Rightarrow> message \<Rightarrow> string \<Rightarrow> effect list \<times> pyerror option" where
  \<comment> \<open>the branch \<open>if not is_thread_message\<close>\<close>
  "new_thread bot_user_id c ev msg thr =
     (case parse_config_block bot_user_id (literal_eval c) (get_text msg) of
        Inl e \<Rightarrow> ([], Some e)
      | Inr (text, config) \<Rightarrow>
          if \<not> get_truthy config ''is_bot_mention'' then ([], None)
          else
            (case user msg of
               None \<Rightarrow> ([], Some KeyError)
             | Some thread_initiator \<Rightarrow>
                 call_claude c ev msg thr config
                   [\<lparr>role = User,
                     content = text_part text #
                       (if files msg \<noteq> []
                        then process_attachments (download_and_encode_file c) (files msg)
                        else [])\<rparr>]))"

definition thread_reply ::
  "string \<Rightarrow> collaborators \<Rightarrow> event \<Rightarrow> message \<Rightarrow> string \<Rightarrow> effect list \<times> pyerror option" where
  \<comment> \<open>the branch \<open>else\<close>: a message of a thread. \<open>msg["user"]\<close> is read, and raises when
      missing, only where the thread is not public.\<close>
  "thread_reply bot_user_id c ev msg thr =
     (case conversations_replies c (channel ev) thr of
        Inl e \<Rightarrow> ([], Some e)
      | Inr thread \<Rightarrow>
          (case thread of
             [] \<Rightarrow> ([], Some IndexError)
           | first_msg # rest \<Rightarrow>
               (case parse_config_block bot_user_id (literal_eval c) (get_text first_msg) of
                  Inl e \<Rightarrow> ([], Some e)
                | Inr (first_msg_txt, config) \<Rightarrow>
                    if \<not> get_truthy config ''is_bot_mention'' then ([], None)
                    else if \<not> get_truthy config ''is_public'' \<and> user msg = None
                    then ([], Some KeyError)
                    else if \<not> get_truthy config ''is_public'' \<and> user msg \<noteq> user first_msg
                    then ([], None)
                    else
                      (case format_thread bot_user_id (download_and_encode_file c)
                              (first_msg\<lparr>msg_text := Some first_msg_txt\<rparr> # rest) config of
                         Inl e \<Rightarrow> ([], Some e)
                       | Inr formatted_messages \<Rightarrow>
                           if formatted_messages = [] then ([], Some IndexError)
                           else if role (last formatted_messages) = Assistant then ([], None)
                           else call_claude c ev msg thr config formatted_messages))))"

definition empty_message :: message where
  \<comment> \<open>the \<open>{}\<close> of \<open>event.get("message", {})\<close>; its timestamp is never read\<close>
  "empty_message = \<lparr>user = None, msg_text = None, ts = [], thread_ts = None, subtype = None,
     files = [], blocks = []\<rparr>"

definition current_message :: "event \<Rightarrow> message" where
  \<comment> \<open>\<open>msg\<close>: the event itself, or the new state of an edited message\<close>
  "current_message ev =
     (if subtype ev \<noteq> Some ''message_changed'' then message.truncate ev
      else (case message ev of Some m \<Rightarrow> m | None \<Rightarrow> empty_message))"

definition is_deletion :: "event \<Rightarrow> bool" where
  "is_deletion ev =
     (subtype ev = Some ''message_deleted'' \<or>
      (subtype ev = Some ''message_changed'' \<and>
       (case message ev of Some m \<Rightarrow> subtype m = Some ''tombstone'' | None \<Rightarrow> False)))"

definition text_unchanged :: "event \<Rightarrow> bool" where
  \<comment> \<open>\<open>previous_message.get("text", 0) == message.get("text")\<close>: true only of two equal
      texts, as 0 and \<open>None\<close> differ\<close>
  "text_unchanged ev =
     (case (previous_message ev, message ev) of
        (Some p, Some m) \<Rightarrow>
          (case (msg_text p, msg_text m) of (Some a, Some b) \<Rightarrow> a = b | _ \<Rightarrow> False)
      | _ \<Rightarrow> False)"

definition handle_message :: "string \<Rightarrow> collaborators \<Rightarrow> event \<Rightarrow> effect list" where
  \<comment> \<open>an exception of the body is caught and answered by an error reply in the thread\<close>
  "handle_message bot_user_id c ev =
     (if is_deletion ev then handle_message_deleted bot_user_id c ev
      else if subtype ev = Some ''message_changed'' \<and> text_unchanged ev then []
      else
        (let msg = current_message ev;
             thr = (case thread_ts msg of Some t \<Rightarrow> t | None \<Rightarrow> ts msg);
             outcome = (if thread_ts msg = None then new_thread bot_user_id c ev msg thr
                        else thread_reply bot_user_id c ev msg thr)
         in case snd outcome of
              None \<Rightarrow> fst outcome
            | Some e \<Rightarrow> fst outcome @ [SayError e thr]))"

definition invokes_model :: "effect \<Rightarrow> bool" where
  "invokes_model x = (case x of MessagesCreate req \<Rightarrow> True | _ \<Rightarrow> False)"

section \<open>Sample data\<close>

text \<open>
  The concrete inputs of the evaluations below: messages of a thread of channel \<open>C\<close> whose
  root has the timestamp 1, events on them, and collaborators that return a given
  thread, fail every upload and attachment, answer \<open>ok\<close> for the model, and know the
  floats of the timestamps 1 to 5.
\<close>

definition sample_msg :: "string \<Rightarrow> string \<Rightarrow> string \<Rightarrow> message" where
  "sample_msg u t stamp = \<lparr>user = Some u, msg_text = Some t, ts = stamp, thread_ts = Some ''1'',
     subtype = None, files = [], blocks = []\<rparr>"

definition float_table :: "(string \<times> pyfloat) list \<Rightarrow> string \<Rightarrow> pyerror + pyfloat" where
  "float_table tab src = (case map_of tab src of Some f \<Rightarrow> Inr f | None \<Rightarrow> Inl ValueError)"

definition sample_collaborators :: "message list \<Rightarrow> evaluator \<Rightarrow> collaborators" where
  "sample_collaborators thread evl =
     \<lparr>conversations_replies = (\<lambda>ch t. Inr thread),
      files_upload_v2 = (\<lambda>ch t n th. Inl ApiError),
      download_and_encode_file = (\<lambda>f. None),
      messages_create = (\<lambda>req. Inr [''ok'']),
      literal_eval = evl,
      float = float_table [(''1'', Float 1 0), (''2'', Float 2 0), (''3'', Float 3 0),
                           (''4'', Float 4 0), (''5'', Float 5 0)]\<rparr>"

definition sample_event :: "message \<Rightarrow> message option \<Rightarrow> message option \<Rightarrow> event" where
  "sample_event msg new old = message.extend msg (event.fields ''C'' new old)"

definition sample_thread :: "message list" where
  "sample_thread = [sample_msg ''U1'' ''<@B> hi'' ''1'', sample_msg ''B'' ''hello'' ''2'',
     sample_msg ''U1'' ''wrong'' ''3'', sample_msg ''B'' ''ok'' ''4'', sample_msg ''B'' ''more'' ''5'']"

definition sample_deletion :: event where
  "sample_deletion = (sample_event (sample_msg ''U1'' [] ''6'') None
     (Some (sample_msg ''U1'' ''wrong'' ''3'')))\<lparr>subtype := Some ''message_deleted''\<rparr>"

section \<open>Properties of ConfigBlockParser: auxiliary facts\<close>

lemma dropWhile_tight: "tight m \<Longrightarrow> dropWhile isspace (m @ b) = m @ b"
  by (cases m) (auto simp: tight_def)

lemma strip_decomp:
  assumes a: "\<forall>c\<in>set a. isspace c" and b: "\<forall>c\<in>set b. isspace c" and m: "tight m"
  shows "strip (a @ m @ b) = m"
proof -
  have 1: "dropWhile isspace (a @ m @ b) = m @ b"
  proof -
    have "dropWhile isspace (a @ m @ b) = dropWhile isspace (m @ b)"
      by (rule dropWhile_append2) (use a in simp)
    then show ?thesis using m by (simp add: dropWhile_tight)
  qed
  have 2: "dropWhile isspace (rev b @ rev m) = rev m"
  proof -
    have "dropWhile isspace (rev b @ rev m) = dropWhile isspace (rev m)"
      by (rule dropWhile_append2) (use b in simp)
    moreover have "rev m \<noteq> [] \<and> \<not> isspace (hd (rev m))"
      using m by (simp add: tight_def hd_rev)
    then have "dropWhile isspace (rev m) = rev m" by (cases "rev m") auto
    ultimately show ?thesis by simp
  qed
  show ?thesis unfolding strip_def 1 by (simp add: 2)
qed

lemma strip_all_space:
  assumes "\<forall>c\<in>set a. isspace c"
  shows "strip a = []"
proof -
  have d: "dropWhile isspace a = []" using assms by simp
  show ?thesis unfolding strip_def d by simp
qed

lemma space_decomp:
  "(\<forall>c\<in>set x. isspace c) \<or>
   (\<exists>a m b. x = a @ m @ b \<and> (\<forall>c\<in>set a. isspace c) \<and> (\<forall>c\<in>set b. isspace c) \<and> tight m)"
proof (cases "\<forall>c\<in>set x. isspace c")
  case True then show ?thesis by simp
next
  case False
  define a where "a = takeWhile isspace x"
  define y where "y = dropWhile isspace x"
  define b where "b = rev (takeWhile isspace (rev y))"
  define m where "m = rev (dropWhile isspace (rev y))"
  have xy: "x = a @ y" by (simp add: a_def y_def)
  have ynil: "y \<noteq> []" using False by (simp add: y_def)
  have hdy: "\<not> isspace (hd y)" using ynil unfolding y_def by (rule hd_dropWhile)
  have ymb: "y = m @ b"
  proof -
    have "m @ b = rev (takeWhile isspace (rev y) @ dropWhile isspace (rev y))"
      unfolding m_def b_def by (simp only: rev_append)
    also have "\<dots> = rev (rev y)" by (simp only: takeWhile_dropWhile_id)
    finally show ?thesis by simp
  qed
  have "\<exists>c\<in>set (rev y). \<not> isspace c" using ynil hdy by (cases y) auto
  then have dn: "dropWhile isspace (rev y) \<noteq> []" by simp
  then have mn: "m \<noteq> []" by (simp add: m_def)
  have "\<not> isspace (hd (dropWhile isspace (rev y)))" using dn by (rule hd_dropWhile)
  then have lm: "\<not> isspace (last m)" using dn by (simp add: m_def last_rev)
  have "hd m = hd y" using ymb mn by (cases m) auto
  then have "tight m" using mn lm hdy by (simp add: tight_def)
  moreover have "\<forall>c\<in>set a. isspace c" by (auto simp: a_def dest: set_takeWhileD)
  moreover have "\<forall>c\<in>set b. isspace c" by (auto simp: b_def dest: set_takeWhileD)
  ultimately show ?thesis using xy ymb by blast
qed

lemma lazy_until_close_body:
  "body \<noteq> [] \<Longrightarrow>
   (\<forall>i. 1 \<le> i \<and> i < length body \<longrightarrow> \<not> startswith (drop i (body @ ''}}'')) ''}}'') \<Longrightarrow>
   lazy_until_close (body @ ''}}'' @ r) = Some (body, r)"
proof (induction body)
  case Nil then show ?case by simp
next
  case (Cons c bs)
  show ?case
  proof (cases "bs = []")
    case True then show ?thesis by (simp add: startswith_def)
  next
    case False
    have "\<not> startswith (drop 1 ((c # bs) @ ''}}'')) ''}}''"
      using Cons.prems(2) False by (metis One_nat_def le_refl length_Cons length_greater_0_conv lessI less_Suc_eq_0_disj not_less_eq) 
    then have n1: "\<not> startswith (bs @ ''}}'' @ r) ''}}''"
      using False by (cases bs; cases "tl bs") (auto simp: startswith_def)
    have "\<forall>i. 1 \<le> i \<and> i < length bs \<longrightarrow> \<not> startswith (drop i (bs @ ''}}'')) ''}}''"
    proof (intro allI impI)
      fix i assume "1 \<le> i \<and> i < length bs"
      then have "1 \<le> Suc i \<and> Suc i < length (c # bs)" by simp
      then have "\<not> startswith (drop (Suc i) ((c # bs) @ ''}}'')) ''}}''"
        using Cons.prems(2) by blast
      then show "\<not> startswith (drop i (bs @ ''}}'')) ''}}''" by simp
    qed
    then have "lazy_until_close (bs @ ''}}'' @ r) = Some (bs, r)"
      using Cons.IH False by simp
    then show ?thesis using n1 by simp
  qed
qed

lemma map_of_fold_setitem:
  "map_of (fold setitem kvs d) = map_of d ++ map_of (rev kvs)"
proof (induction kvs arbitrary: d)
  case Nil then show ?case by simp
next
  case (Cons kv kvs)
  have "map_of (setitem kv d) = (map_of d)(fst kv \<mapsto> snd kv)"
    by (simp add: setitem_def update_conv')
  then show ?case using Cons.IH [of "setitem kv d"]
    by (cases kv) (auto simp: map_add_def fun_eq_iff split: option.splits)
qed

lemma isspace_simps [simp]:
  "\<not> isspace CHR ''<''" "\<not> isspace CHR ''>''" "\<not> isspace CHR ''@''" "\<not> isspace CHR ''c''"
  "\<not> isspace CHR ''{''" "\<not> isspace CHR ''}''"
  by (simp_all add: isspace_def)

lemma tight_token: "tight (token_text uid t)"
  by (cases t) (simp_all add: tight_def bot_mention_def public_flag_def)

lemma tight_append: "tight x \<Longrightarrow> tight y \<Longrightarrow> tight (x @ z @ y)"
  by (cases x) (auto simp: tight_def)

lemma tight_with_prefixes: "tight M \<Longrightarrow> tight (with_prefixes uid toks M)"
  by (induction toks) (auto simp: tight_append tight_token)

lemma with_prefixes_append: "with_prefixes uid toks (x @ y) = with_prefixes uid toks x @ y"
  by (induction toks) auto

lemma startswith_append_self: "startswith (p @ x) p"
  by (simp add: startswith_def)

lemma public_not_mention: "\<not> startswith (public_flag @ x) (bot_mention uid)"
  by (simp add: startswith_def public_flag_def bot_mention_def)

lemma strip_prefixes_with_prefixes:
  assumes "\<forall>c\<in>set a. isspace c" and "\<forall>c\<in>set b. isspace c"
    and "\<forall>(t, ws)\<in>set toks. \<forall>c\<in>set ws. isspace c"
    and "tight M" and "\<not> startswith M (bot_mention uid)" and "\<not> startswith M public_flag"
  shows "strip_prefixes uid config (a @ with_prefixes uid toks M @ b)
    = (M, structural_flags (map fst toks) config)"
  using assms
proof (induction toks arbitrary: a b config)
  case Nil
  have "strip (a @ M @ b) = M" using Nil by (simp add: strip_decomp)
  then show ?case using Nil
    by (subst strip_prefixes.simps) (simp add: Let_def structural_flags_def)
next
  case (Cons tw toks)
  obtain t ws where tw: "tw = (t, ws)" by (cases tw)
  define W where "W = with_prefixes uid toks M"
  have tW: "tight W" unfolding W_def using Cons.prems(4) by (rule tight_with_prefixes)
  have ws: "\<forall>c\<in>set ws. isspace c" using Cons.prems(3) tw by simp
  have tT: "tight (token_text uid t @ ws @ W)"
    using tight_token tW by (rule tight_append)
  have s1: "strip (a @ with_prefixes uid (tw # toks) M @ b) = token_text uid t @ ws @ W"
    using strip_decomp [OF Cons.prems(1) Cons.prems(2) tT] by (simp add: tw W_def)
  have s2: "strip (ws @ W) = W"
    using strip_decomp [OF ws _ tW, of "[]"] by simp
  have IH: "strip_prefixes uid c W = (M, structural_flags (map fst toks) c)" for c
    using Cons.IH [of "[]" "[]" c] Cons.prems by (simp add: W_def)
  show ?case
  proof (cases t)
    case Mention
    show ?thesis
      apply (subst strip_prefixes.simps)
      apply (simp only: s1 Let_def)
      apply (simp add: Mention startswith_append_self s2 IH structural_flags_def tw)
      done
  next
    case Public
    show ?thesis
      apply (subst strip_prefixes.simps)
      apply (simp only: s1 Let_def)
      apply (simp add: Public startswith_append_self public_not_mention s2 IH
          structural_flags_def tw)
      done
  qed
qed

section \<open>Properties of OverflowPolicy\<close>

text \<open>
  Claim C8. A text of at most 3000 characters comes back unchanged with no file; a longer
  one comes back as the fixed sentinel with the file when the upload succeeds; when the
  upload raises, the result is the first 2950 characters followed by the truncation
  marker, at most 3000 characters long, with no file. The function is total: the upload's
  exception is a value it turns into the truncation.
\<close>

theorem handle_large_response_cases:
  "(length text \<le> 3000 \<longrightarrow>
      handle_large_response text up ch thr = (text, None)) \<and>
   (3000 < length text \<longrightarrow> up ch text ''llm_response.txt'' thr = Inr f \<longrightarrow>
      handle_large_response text up ch thr = (LONGRESPONSE, Some f)) \<and>
   (3000 < length text \<longrightarrow> up ch text ''llm_response.txt'' thr = Inl e \<longrightarrow>
      (\<exists>t. handle_large_response text up ch thr = (t, None) \<and>
           endswith t ''\<newline>... [Response truncated]'' \<and> length t \<le> 3000 \<and>
           take 2950 t = take 2950 text))"
  by (simp add: handle_large_response_def upload_snippet_def endswith_def)

theorem handle_large_response_cases_witness:
  "handle_large_response ''short'' (\<lambda>c t n th. Inl ApiError) ''C1'' ''1.0'' = (''short'', None) \<and>
   handle_large_response (replicate 3001 CHR ''a'') (\<lambda>c t n th. Inr ''F1'') ''C1'' ''1.0''
     = (LONGRESPONSE, Some ''F1'') \<and>
   (\<exists>t. handle_large_response (replicate 3001 CHR ''a'') (\<lambda>c t n th. Inl ApiError) ''C1'' ''1.0''
          = (t, None) \<and>
        endswith t ''\<newline>... [Response truncated]'' \<and> length t \<le> 3000 \<and>
        take 2950 t = take 2950 (replicate 3001 CHR ''a''))"
  using handle_large_response_cases [of "''short''" "\<lambda>c t n th. Inl ApiError" "''C1''" "''1.0''"]
    handle_large_response_cases [of "replicate 3001 CHR ''a''" "\<lambda>c t n th. Inr ''F1''"
      "''C1''" "''1.0''" "''F1''"]
    handle_large_response_cases [of "replicate 3001 CHR ''a''" "\<lambda>c t n th. Inl ApiError"
      "''C1''" "''1.0''" _ ApiError]
  by simp

section \<open>Properties of ConfigBlockParser\<close>

lemma no_brace_no_close:
  assumes "CHR ''}'' \<notin> set body"
  shows "\<forall>i. 1 \<le> i \<and> i < length body \<longrightarrow> \<not> startswith (drop i (body @ ''}}'')) ''}}''"
proof (intro allI impI)
  fix i assume i: "1 \<le> i \<and> i < length body"
  show "\<not> startswith (drop i (body @ ''}}'')) ''}}''"
  proof
    assume sw: "startswith (drop i (body @ ''}}'')) ''}}''"
    define X where "X = drop i body"
    have X: "X \<noteq> []" using i by (simp add: X_def)
    have "drop i (body @ ''}}'') = X @ ''}}''" using i by (simp add: X_def)
    then have "startswith (X @ ''}}'') ''}}''" using sw by simp
    then have "hd X = CHR ''}''" using X by (cases X) (auto simp: startswith_def)
    moreover have "hd X = body ! i" using i by (simp add: X_def hd_drop_conv_nth)
    ultimately show False using assms i by (metis nth_mem)
  qed
qed

text \<open>
  Claim C2, at the input \<open>{{1, 2}}\<close>. Python evaluates \<open>{1, 2}\<close> to a set; the source
  tests \<open>isinstance(config, dict)\<close> on the directive map instead of the parsed value, so
  the set reaches \<open>config.update\<close>, whose \<open>TypeError\<close> is not among the exceptions caught:
  the function raises.
\<close>

theorem parse_config_block_set_raises:
  "parse_config_block ''B'' (eval_table [(''{1, 2}'', Inr (VSet [VInt 1, VInt 2]))]) ''{{1, 2}}''
     = Inl TypeError"
  by (simp add: parse_config_block_def strip_prefixes.simps strip_def startswith_def
      bot_mention_def public_flag_def match_config_def eval_table_def dict_update_def
      isspace_def caught_def)

text \<open>
  Claim C3, as amended. When the directive block is matched and its literal evaluates to
  a dictionary, every key of the literal takes the literal's value in the returned map,
  \<open>is_bot_mention\<close> included; a flag set by the tokens stays only where the literal has no
  such key.
\<close>

theorem parse_config_block_block_overrides:
  assumes "strip_prefixes uid [] text = (t, config)"
    and "match_config t = Some (config_str, remaining)"
    and "evl (''{'' @ config_str @ ''}'') = Inr (VDict kvs)"
  shows "\<exists>config'. parse_config_block uid evl text = Inr (strip remaining, config') \<and>
           (\<forall>k. map_of config' k =
              (case map_of (rev kvs) k of Some v \<Rightarrow> Some v | None \<Rightarrow> map_of config k))"
  using assms
  by (auto simp: parse_config_block_def dict_update_def map_of_fold_setitem map_add_def)

theorem parse_config_block_block_overrides_witness:
  \<open>\<exists>config'. parse_config_block ''B''
       (eval_table [(''{"is_bot_mention": False}'',
          Inr (VDict [(VStr ''is_bot_mention'', VBool False)]))])
       ''<@B> {{"is_bot_mention": False}} hi'' = Inr (''hi'', config') \<and>
     map_of config' (VStr ''is_bot_mention'') = Some (VBool False) \<and>
     map_of config' (VStr ''is_public'') = None\<close>
proof -
  let ?ev = \<open>eval_table [(''{"is_bot_mention": False}'',
          Inr (VDict [(VStr ''is_bot_mention'', VBool False)]))]\<close>
  have 1: \<open>strip_prefixes ''B'' [] ''<@B> {{"is_bot_mention": False}} hi''
      = (''{{"is_bot_mention": False}} hi'', [(VStr ''is_bot_mention'', VBool True)])\<close>
    by (simp add: strip_prefixes.simps strip_def startswith_def bot_mention_def
        public_flag_def isspace_def setitem_def)
  have 2: \<open>match_config ''{{"is_bot_mention": False}} hi''
      = Some (''"is_bot_mention": False'', ''hi'')\<close>
    by (simp add: match_config_def startswith_def isspace_def)
  have 3: \<open>?ev (''{'' @ ''"is_bot_mention": False'' @ ''}'')
      = Inr (VDict [(VStr ''is_bot_mention'', VBool False)])\<close>
    by (simp add: eval_table_def)
  show ?thesis
    using parse_config_block_block_overrides [where evl = ?ev, OF 1 2 3]
    by (auto simp: strip_def isspace_def)
qed

text \<open>
  Claim C3 as stated fails: the mention token sets \<open>is_bot_mention\<close> to true, and the
  literal's \<open>"is_bot_mention": False\<close> replaces it.
\<close>

theorem is_bot_mention_overwritten_counterexample:
  \<open>dict_get (snd (strip_prefixes ''B'' [] ''<@B> {{"is_bot_mention": False}} hi''))
       ''is_bot_mention'' = Some (VBool True) \<and>
   parse_config_block ''B''
     (eval_table [(''{"is_bot_mention": False}'',
        Inr (VDict [(VStr ''is_bot_mention'', VBool False)]))])
     ''<@B> {{"is_bot_mention": False}} hi''
   = Inr (''hi'', [(VStr ''is_bot_mention'', VBool False)])\<close>
  by (simp add: parse_config_block_def strip_prefixes.simps strip_def startswith_def
      bot_mention_def public_flag_def match_config_def eval_table_def dict_update_def
      isspace_def caught_def setitem_def dict_get_def)

text \<open>
  Claim C5, as amended. The text is whitespace, then mention and visibility tokens each
  followed by whitespace, then a block \<open>{{body}}\<close> and the trailing text. When the body is
  not empty, the first doubled closing brace at an offset of at least one after the
  opening is the block's own, and the literal \<open>{body}\<close> evaluates to a dictionary, the
  result is the trailing text trimmed, with the flags of the tokens updated by the
  literal's items in order.
\<close>

theorem parse_config_block_well_formed:
  assumes lead: "\<forall>c\<in>set lead. isspace c"
    and toks: "\<forall>(t, ws)\<in>set toks. \<forall>c\<in>set ws. isspace c"
    and body: "body \<noteq> []"
    and close: "\<forall>i. 1 \<le> i \<and> i < length body \<longrightarrow> \<not> startswith (drop i (body @ ''}}'')) ''}}''"
    and ev: "evl (''{'' @ body @ ''}'') = Inr (VDict kvs)"
  shows "parse_config_block uid evl
           (lead @ with_prefixes uid toks (''{{'' @ body @ ''}}'' @ rest))
         = Inr (strip rest, fold setitem kvs (structural_flags (map fst toks) []))"
proof -
  obtain r0 bsp where rest: "rest = r0 @ bsp" and bsp: "\<forall>c\<in>set bsp. isspace c"
    and tM: "tight (''{{'' @ body @ ''}}'' @ r0)"
    and sr: "strip (dropWhile isspace r0) = strip rest"
  proof -
    consider (sp) "\<forall>c\<in>set rest. isspace c"
      | (dec) a m b where "rest = a @ m @ b" "\<forall>c\<in>set a. isspace c" "\<forall>c\<in>set b. isspace c" "tight m"
      using space_decomp [of rest] by blast
    then show ?thesis
    proof cases
      case sp
      have "tight (''{{'' @ body @ ''}}'' @ [])" by (simp add: tight_def)
      moreover have "strip (dropWhile isspace []) = strip rest"
        using sp by (simp add: strip_all_space)
      ultimately show ?thesis using that [of "[]" rest] sp by simp
    next
      case dec
      have "tight (''{{'' @ body @ ''}}'' @ a @ m)"
        using dec(4) by (simp add: tight_def)
      moreover have "dropWhile isspace (a @ m) = m"
      proof -
        have "dropWhile isspace (a @ m) = dropWhile isspace m"
          by (rule dropWhile_append2) (use dec(2) in simp)
        then show ?thesis using dropWhile_tight [OF dec(4), of "[]"] by simp
      qed
      moreover have "strip m = m" using strip_decomp [of "[]" "[]" m] dec(4) by simp
      moreover have "strip rest = m" using strip_decomp [OF dec(2) dec(3) dec(4)] dec(1) by simp
      ultimately show ?thesis using that [of "a @ m" b] dec by simp
    qed
  qed
  define M where "M = ''{{'' @ body @ ''}}'' @ r0"
  have nm: "\<not> startswith M (bot_mention uid)" "\<not> startswith M public_flag"
    by (simp_all add: M_def startswith_def bot_mention_def public_flag_def)
  have whole: "lead @ with_prefixes uid toks (''{{'' @ body @ ''}}'' @ rest)
      = lead @ with_prefixes uid toks M @ bsp"
    using with_prefixes_append [of uid toks M bsp] by (simp add: M_def rest)
  have sp: "strip_prefixes uid [] (lead @ with_prefixes uid toks M @ bsp)
      = (M, structural_flags (map fst toks) [])"
    using lead bsp toks tM nm unfolding M_def [symmetric] by (rule strip_prefixes_with_prefixes)
  have dw: "dropWhile isspace M = M" using dropWhile_tight [of M "[]"] tM by (simp add: M_def)
  have mc: "match_config M = Some (body, dropWhile isspace r0)"
    unfolding match_config_def dw
    using lazy_until_close_body [OF body close, of r0]
    by (simp add: M_def startswith_def)
  have sM: "strip M = M" using strip_decomp [of "[]" "[]" M] tM by (simp add: M_def)
  show ?thesis
    unfolding whole parse_config_block_def sp
    using ev by (simp add: mc dict_update_def sr)
qed

theorem parse_config_block_well_formed_witness:
  \<open>parse_config_block ''B''
     (eval_table [(''{ "temperature": 0.2 }'',
        Inr (VDict [(VStr ''temperature'', VFloat (Float 3602879701896397 (- 54)))]))])
     ''<@B> @public {{ "temperature": 0.2 }}\<newline>Hello''
   = Inr (''Hello'',
       [(VStr ''is_bot_mention'', VBool True), (VStr ''is_public'', VBool True),
        (VStr ''temperature'', VFloat (Float 3602879701896397 (- 54)))])\<close>
proof -
  let ?ev = \<open>eval_table [(''{ "temperature": 0.2 }'',
        Inr (VDict [(VStr ''temperature'', VFloat (Float 3602879701896397 (- 54)))]))]\<close>
  let ?body = \<open>'' "temperature": 0.2 ''\<close>
  have c: "\<forall>i. 1 \<le> i \<and> i < length ?body \<longrightarrow> \<not> startswith (drop i (?body @ ''}}'')) ''}}''"
    by (rule no_brace_no_close) simp
  have e: \<open>?ev (''{'' @ ?body @ ''}'')
      = Inr (VDict [(VStr ''temperature'', VFloat (Float 3602879701896397 (- 54)))])\<close>
    by (simp add: eval_table_def)
  show ?thesis
    using parse_config_block_well_formed [where lead = "[]"
        and toks = "[(Mention, '' ''), (Public, '' '')]" and body = ?body
        and evl = ?ev and uid = "''B''" and rest = "''\<newline>Hello''", OF _ _ _ c e]
    by (simp add: bot_mention_def public_flag_def structural_flags_def setitem_def
        strip_def isspace_def)
qed

text \<open>
  Claim C5 as stated fails where the literal ends in a closing brace. The block holds
  the literal \<open>"a": {"b": 1}\<close>, a well-formed dictionary; the group of the pattern stops
  at the first doubled brace, one brace early, \<open>{"a": {"b": 1\<close> does not parse, and the
  whole text comes back with the flag of the mention alone.
\<close>

theorem nested_literal_counterexample:
  \<open>eval_table [(''{"a": {"b": 1}}'', Inr (VDict [(VStr ''a'', VDict [(VStr ''b'', VInt 1)])])),
               (''{"a": {"b": 1}'', Inl SyntaxError)]
      (''{'' @ ''"a": {"b": 1}'' @ ''}'')
     = Inr (VDict [(VStr ''a'', VDict [(VStr ''b'', VInt 1)])]) \<and>
   parse_config_block ''B''
     (eval_table [(''{"a": {"b": 1}}'', Inr (VDict [(VStr ''a'', VDict [(VStr ''b'', VInt 1)])])),
                  (''{"a": {"b": 1}'', Inl SyntaxError)])
     (with_prefixes ''B'' [(Mention, '' '')] (''{{'' @ ''"a": {"b": 1}'' @ ''}}'' @ '' hi''))
   = Inr (''{{"a": {"b": 1}}} hi'', [(VStr ''is_bot_mention'', VBool True)])\<close>
  by (simp add: parse_config_block_def strip_prefixes.simps strip_def startswith_def
      bot_mention_def public_flag_def match_config_def eval_table_def dict_update_def
      isspace_def caught_def setitem_def)

section \<open>Properties of the reconstruction from blocks\<close>

lemma slackmsg_loop_acc:
  "slackmsg_loop bs acc = acc @ filter (\<lambda>t. \<not> startswith t LONGRESPONSE) (section_texts bs)"
  by (induction bs acc rule: slackmsg_loop.induct) simp_all

text \<open>
  Claim C4, as amended, on the formatter alone. The text the formatter computes from
  the blocks of a bot message is the texts of the section blocks that do not start with
  the overflow sentinel, joined by newlines. When no section text starts with the
  sentinel it is all the section texts as they are: dividers and blocks of other types
  add nothing, and a fenced code block is passed on with its fence, after a divider or
  not.
\<close>

theorem reconstruct_from_slackmsg_sections:
  "reconstruct_from_slackmsg bs
     = join ''\<newline>'' (filter (\<lambda>t. \<not> startswith t LONGRESPONSE) (section_texts bs)) \<and>
   ((\<forall>t\<in>set (section_texts bs). \<not> startswith t LONGRESPONSE) \<longrightarrow>
      reconstruct_from_slackmsg bs = join ''\<newline>'' (section_texts bs))"
proof -
  have 1: "reconstruct_from_slackmsg bs
     = join ''\<newline>'' (filter (\<lambda>t. \<not> startswith t LONGRESPONSE) (section_texts bs))"
    by (simp add: reconstruct_from_slackmsg_def slackmsg_loop_acc)
  have 2: "reconstruct_from_slackmsg bs = join ''\<newline>'' (section_texts bs)"
    if h: "\<forall>t\<in>set (section_texts bs). \<not> startswith t LONGRESPONSE"
  proof -
    have "filter (\<lambda>t. \<not> startswith t LONGRESPONSE) (section_texts bs) = section_texts bs"
      using h by (simp add: filter_id_conv)
    then show ?thesis by (simp add: 1)
  qed
  show ?thesis using 1 2 by blast
qed

theorem reconstruct_from_slackmsg_sections_witness:
  \<open>reconstruct_from_slackmsg
     [Section ''Here it is'', Divider, Section ''*Title*'', OtherBlock ''image'',
      Section ''```html\<newline><p>x</p>\<newline>```'']
   = ''Here it is\<newline>*Title*\<newline>```html\<newline><p>x</p>\<newline>```''\<close>
proof -
  let ?bs = \<open>[Section ''Here it is'', Divider, Section ''*Title*'', OtherBlock ''image'',
      Section ''```html\<newline><p>x</p>\<newline>```'']\<close>
  have h: "\<forall>t\<in>set (section_texts ?bs). \<not> startswith t LONGRESPONSE"
    by (simp add: startswith_def LONGRESPONSE_def)
  have "reconstruct_from_slackmsg ?bs = join ''\<newline>'' (section_texts ?bs)"
    using reconstruct_from_slackmsg_sections [of ?bs] h by blast
  then show ?thesis by simp
qed

text \<open>
  Claim C4 as stated fails on a divider followed by a fenced code block: the text of
  the formatter is the fenced block itself, which is no artifact tag.
\<close>

theorem fenced_block_counterexample:
  \<open>reconstruct_from_slackmsg [Divider, Section ''```py\<newline>x = 1\<newline>```'']
     = ''```py\<newline>x = 1\<newline>```'' \<and>
   \<not> startswith (reconstruct_from_slackmsg [Divider, Section ''```py\<newline>x = 1\<newline>```''])
       ''<antArtifact''\<close>
  by (simp add: reconstruct_from_slackmsg_def startswith_def LONGRESPONSE_def)

section \<open>Properties of ThreadFormatter\<close>







section \<open>Properties of the orchestrator\<close>

lemma after_deleted_idx_first:
  assumes "\<forall>m\<in>set xs. \<exists>f. fl (ts m) = Inr f"
  shows "\<exists>k\<le>length xs.
           (\<forall>j<k. \<forall>f. fl (ts (xs ! j)) = Inr f \<longrightarrow> \<not> float_ge f d) \<and>
           (if k < length xs
            then (\<exists>f. fl (ts (xs ! k)) = Inr f \<and> float_ge f d) \<and>
                 after_deleted_idx fl xs d i = Inr (Some (i + k))
            else after_deleted_idx fl xs d i = Inr None)"
  using assms
proof (induction xs arbitrary: i)
  case Nil
  then show ?case by simp
next
  case (Cons x xs)
  obtain f where f: "fl (ts x) = Inr f" using Cons.prems by auto
  show ?case
  proof (cases "float_ge f d")
    case True
    then show ?thesis using f by (intro exI [of _ 0]) simp
  next
    case False
    obtain k where k: "k \<le> length xs"
      "\<forall>j<k. \<forall>g. fl (ts (xs ! j)) = Inr g \<longrightarrow> \<not> float_ge g d"
      "if k < length xs
       then (\<exists>g. fl (ts (xs ! k)) = Inr g \<and> float_ge g d) \<and>
            after_deleted_idx fl xs d (Suc i) = Inr (Some (Suc i + k))
       else after_deleted_idx fl xs d (Suc i) = Inr None"
      using Cons.IH [of "Suc i"] Cons.prems by auto
    have "\<forall>j<Suc k. \<forall>g. fl (ts ((x # xs) ! j)) = Inr g \<longrightarrow> \<not> float_ge g d"
      using k(2) f False by (auto simp: less_Suc_eq_0_disj)
    moreover have "if Suc k < length (x # xs)
       then (\<exists>g. fl (ts ((x # xs) ! Suc k)) = Inr g \<and> float_ge g d) \<and>
            after_deleted_idx fl (x # xs) d i = Inr (Some (i + Suc k))
       else after_deleted_idx fl (x # xs) d i = Inr None"
      using k(3) f False by (auto split: if_splits)
    ultimately show ?thesis using k(1) by (intro exI [of _ "Suc k"]) simp
  qed
qed

text \<open>
  Claim C9. On a deletion event whose previous message is in a thread and is no
  tombstone, when the thread is fetched and its timestamps are numbers, there is a
  position \<open>k\<close>, the first whose timestamp is at least that of the deleted message (the
  length of the thread when there is none), and the handler asks for the deletion of
  exactly the bot's messages from position \<open>k\<close> on, in order: no message before \<open>k\<close> and
  no message of another author.
\<close>

theorem cascading_delete:
  assumes "is_deletion ev"
    and "previous_message ev = Some prev"
    and "thread_ts prev = Some tts" and "tts \<noteq> []"
    and "subtype prev \<noteq> Some ''tombstone''"
    and "conversations_replies c (channel ev) tts = Inr msgs"
    and "float c (ts prev) = Inr d"
    and "\<forall>m\<in>set msgs. \<exists>f. float c (ts m) = Inr f"
  shows "\<exists>k\<le>length msgs.
           (\<forall>j<k. \<forall>f. float c (ts (msgs ! j)) = Inr f \<longrightarrow> \<not> float_ge f d) \<and>
           (k < length msgs \<longrightarrow> (\<exists>f. float c (ts (msgs ! k)) = Inr f \<and> float_ge f d)) \<and>
           handle_message uid c ev
             = map (\<lambda>m. ChatDelete (channel ev) (ts m))
                 (filter (\<lambda>m. user m = Some uid) (drop k msgs))"
proof -
  obtain k where k: "k \<le> length msgs"
    "\<forall>j<k. \<forall>f. float c (ts (msgs ! j)) = Inr f \<longrightarrow> \<not> float_ge f d"
    "if k < length msgs
     then (\<exists>f. float c (ts (msgs ! k)) = Inr f \<and> float_ge f d) \<and>
          after_deleted_idx (float c) msgs d 0 = Inr (Some (0 + k))
     else after_deleted_idx (float c) msgs d 0 = Inr None"
    using after_deleted_idx_first [OF assms(8), of d 0] by blast
  have "handle_message uid c ev
      = map (\<lambda>m. ChatDelete (channel ev) (ts m)) (filter (\<lambda>m. user m = Some uid) (drop k msgs))"
    using assms(1-7) k(1,3)
    by (auto simp: handle_message_def handle_message_deleted_def split: if_splits)
  then show ?thesis using k by (intro exI [of _ k]) (auto split: if_splits)
qed

theorem cascading_delete_witness:
  "handle_message ''B'' (sample_collaborators sample_thread (eval_table [])) sample_deletion
     = [ChatDelete ''C'' ''4'', ChatDelete ''C'' ''5'']"
proof -
  let ?c = "sample_collaborators sample_thread (eval_table [])"
  let ?prev = "sample_msg ''U1'' ''wrong'' ''3''"
  have 1: "is_deletion sample_deletion"
    by (simp add: is_deletion_def sample_deletion_def sample_event_def message.defs event.defs)
  have 2: "previous_message sample_deletion = Some ?prev"
    by (simp add: sample_deletion_def sample_event_def message.defs event.defs)
  have 3: "thread_ts ?prev = Some ''1''" and 4: "''1'' \<noteq> []"
    and 5: "subtype ?prev \<noteq> Some ''tombstone''"
    by (simp_all add: sample_msg_def)
  have 6: "conversations_replies ?c (channel sample_deletion) ''1'' = Inr sample_thread"
    by (simp add: sample_collaborators_def)
  have 7: "float ?c (ts ?prev) = Inr (Float 3 0)"
    by (simp add: sample_collaborators_def sample_msg_def float_table_def)
  have 8: "\<forall>m\<in>set sample_thread. \<exists>f. float ?c (ts m) = Inr f"
    by (simp add: sample_collaborators_def sample_thread_def sample_msg_def float_table_def)
  obtain k where k: "k \<le> length sample_thread"
    "\<forall>j<k. \<forall>f. float ?c (ts (sample_thread ! j)) = Inr f \<longrightarrow> \<not> float_ge f (Float 3 0)"
    "k < length sample_thread \<longrightarrow>
       (\<exists>f. float ?c (ts (sample_thread ! k)) = Inr f \<and> float_ge f (Float 3 0))"
    "handle_message ''B'' ?c sample_deletion
       = map (\<lambda>m. ChatDelete (channel sample_deletion) (ts m))
           (filter (\<lambda>m. user m = Some ''B'') (drop k sample_thread))"
    using cascading_delete [OF 1 2 3 4 5 6 7 8, of "''B''"] by blast
  have fl: "float ?c (ts (sample_thread ! 0)) = Inr (Float 1 0)"
    "float ?c (ts (sample_thread ! 1)) = Inr (Float 2 0)"
    "float ?c (ts (sample_thread ! 2)) = Inr (Float 3 0)"
    by (simp_all add: sample_collaborators_def sample_thread_def sample_msg_def float_table_def)
  have "\<not> k < 2"
  proof
    assume "k < 2"
    then consider "k = 0" | "k = 1" by linarith
    then show False using k(3) fl by cases (simp_all add: sample_thread_def)
  qed
  moreover have "\<not> 2 < k"
  proof
    assume "2 < k"
    then have "\<not> float_ge (Float 3 0) (Float 3 0)" using k(2) fl(3) by blast
    then show False by simp
  qed
  ultimately have "k = 2" by linarith
  then show ?thesis using k(4)
    by (simp add: sample_thread_def sample_msg_def sample_deletion_def sample_event_def
        message.defs event.defs)
qed

text \<open>
  The gate of a reply in a thread. The model is called only when the first message of
  the thread parses to a map with \<open>is_bot_mention\<close> set and the author is the initiator or
  \<open>is_public\<close> is set; when that message parses, the reply has an author and a condition
  fails, nothing is done.
\<close>

lemma thread_reply_gated:
  assumes "\<exists>x\<in>set (fst (thread_reply uid c ev msg thr)). invokes_model x"
  shows "\<exists>first_msg rest txt config.
           conversations_replies c (channel ev) thr = Inr (first_msg # rest) \<and>
           parse_config_block uid (literal_eval c) (get_text first_msg) = Inr (txt, config) \<and>
           get_truthy config ''is_bot_mention'' \<and>
           (get_truthy config ''is_public'' \<or> user msg = user first_msg)"
  using assms
  by (auto simp: thread_reply_def split: sum.splits list.splits prod.splits if_splits)

lemma thread_reply_ignored:
  assumes "conversations_replies c (channel ev) thr = Inr (first_msg # rest)"
    and "parse_config_block uid (literal_eval c) (get_text first_msg) = Inr (txt, config)"
    and "user msg \<noteq> None"
    and "\<not> get_truthy config ''is_bot_mention'' \<or>
         (\<not> get_truthy config ''is_public'' \<and> user msg \<noteq> user first_msg)"
  shows "thread_reply uid c ev msg thr = ([], None)"
  using assms by (auto simp: thread_reply_def)

lemma handle_message_gated:
  assumes "\<not> is_deletion ev" and "thread_ts (current_message ev) = Some thr"
    and "\<exists>x\<in>set (handle_message uid c ev). invokes_model x"
  shows "\<exists>first_msg rest txt config.
           conversations_replies c (channel ev) thr = Inr (first_msg # rest) \<and>
           parse_config_block uid (literal_eval c) (get_text first_msg) = Inr (txt, config) \<and>
           get_truthy config ''is_bot_mention'' \<and>
           (get_truthy config ''is_public'' \<or> user (current_message ev) = user first_msg)"
proof -
  have "\<exists>x\<in>set (fst (thread_reply uid c ev (current_message ev) thr)). invokes_model x"
    using assms
    by (auto simp: handle_message_def Let_def invokes_model_def split: option.splits if_splits)
  then show ?thesis by (rule thread_reply_gated)
qed

lemma handle_message_ignored:
  assumes "\<not> is_deletion ev" and "thread_ts (current_message ev) = Some thr"
    and "conversations_replies c (channel ev) thr = Inr (first_msg # rest)"
    and "parse_config_block uid (literal_eval c) (get_text first_msg) = Inr (txt, config)"
    and "user (current_message ev) \<noteq> None"
    and "\<not> get_truthy config ''is_bot_mention'' \<or>
         (\<not> get_truthy config ''is_public'' \<and> user (current_message ev) \<noteq> user first_msg)"
  shows "handle_message uid c ev = []"
  using assms(1,2) thread_reply_ignored [OF assms(3-6)]
  by (simp add: handle_message_def Let_def)



text \<open>
  Claim C1, at a reply in a thread opened by \<open>{{1, 2}}\<close>, a message that does not mention
  the bot. Parsing the first message raises, as shown for claim C2, before the gate is
  reached; the handler catches the exception and posts an error reply in a thread that
  is not the bot's.
\<close>

theorem foreign_thread_error_reply:
  "handle_message ''B''
     (sample_collaborators
        [sample_msg ''U1'' ''{{1, 2}}'' ''1'', sample_msg ''U2'' ''hi'' ''2'']
        (eval_table [(''{1, 2}'', Inr (VSet [VInt 1, VInt 2]))]))
     (sample_event (sample_msg ''U2'' ''hi'' ''2'') None None)
   = [SayError TypeError ''1'']"
  by (simp add: handle_message_def is_deletion_def current_message_def sample_event_def
      sample_msg_def message.defs event.defs thread_reply_def sample_collaborators_def
      get_text_def parse_config_block_def strip_prefixes.simps strip_def startswith_def
      bot_mention_def public_flag_def match_config_def isspace_def eval_table_def
      dict_update_def caught_def)

text \<open>
  Every turn of \<open>format_thread\<close> has a part, and its text part, if any, is the text of a
  message that is not empty.
\<close>

lemma format_messages_no_empty_turn:
  "t \<in> set (format_messages uid dl config ini msgs) \<Longrightarrow> content t \<noteq> []"
  by (induction msgs) (auto simp: format_message_def split: option.splits if_splits)

text \<open>
  Claim C7, at a new thread whose message is the mention alone. The branch of a new
  thread builds the text part from the cleaned text without looking at it, where
  \<open>format_thread\<close> tests \<open>msg.get("text")\<close>: the turn sent to the model has a text part
  with the empty text.
\<close>

theorem empty_text_part_sent:
  "handle_message ''B'' (sample_collaborators [] (eval_table []))
     (sample_event ((sample_msg ''U1'' ''<@B>'' ''1'')\<lparr>thread_ts := None\<rparr>) None None)
   = [ReactionsAdd ''C'' ''1'',
      MessagesCreate \<lparr>system = None,
        messages = [\<lparr>role = User, content = [text_part []]\<rparr>], temperature = None\<rparr>,
      ReactionsRemove ''C'' ''1'',
      Say ''ok'' [Section ''ok''] ''1'']"
  by (simp add: handle_message_def is_deletion_def current_message_def sample_event_def
      sample_msg_def message.defs event.defs new_thread_def sample_collaborators_def
      get_text_def parse_config_block_def strip_prefixes.simps strip_def startswith_def
      bot_mention_def public_flag_def match_config_def isspace_def setitem_def
      get_truthy_def dict_get_def call_claude_def apply_cache_headers_def
      handle_large_response_def convert_to_blocks_def Let_def)

end
